theory Spec2Isabelle
  imports Complex_Main
begin

section \<open>Numeric conventions\<close>

text \<open>
  The C++ sources compute with \<^verbatim>\<open>double\<close>. The embedding reads a finite double as the
  real number it denotes and performs \<^verbatim>\<open>+\<close>, \<^verbatim>\<open>*\<close>, \<^verbatim>\<open>/\<close> and the comparisons exactly
  (rounding, overflow to infinity and NaN inputs are outside the model). Every division
  of the modelled code sits behind a guard that makes its denominator positive, so HOL's
  \<open>x / 0 = 0\<close> is never relied upon. The one operation of the sources that can leave the
  finite doubles on finite inputs is \<^verbatim>\<open>sqrt\<close> of a negative number, which yields NaN and
  raises nothing; it is modelled by \<open>None\<close>, and NaN is propagated through the arithmetic
  that consumes it. Console diagnostics (\<^verbatim>\<open>std::cout\<close>) are not part of the modelled state.
\<close>

type_synonym double = real

definition c_sqrt :: "double \<Rightarrow> double option" where
  "c_sqrt x = (if x < 0 then None else Some (sqrt x))"

section \<open>FilterInputData.C: the CVN predicted-class flag\<close>

datatype InteractionType = NuE | NuMu | NC

text \<open>
  The lambda \<^verbatim>\<open>addCVNMax\<close> keeps two locals, \<^verbatim>\<open>predictedClass\<close> and \<^verbatim>\<open>maxScore\<close>, and
  updates them in two consecutive \<^verbatim>\<open>if\<close> statements. \<open>addCVNMax_locals\<close> returns their
  values at the \<^verbatim>\<open>return\<close> statement. The second branch stores \<^verbatim>\<open>cvnNuMu\<close> into
  \<^verbatim>\<open>maxScore\<close>, as the source does.
\<close>

definition addCVNMax_locals :: "double \<Rightarrow> double \<Rightarrow> double \<Rightarrow> InteractionType \<times> double" where
  "addCVNMax_locals cvnNuE cvnNuMu cvnNC =
     (let predictedClass = NuMu;
          maxScore = cvnNuMu;
          (predictedClass, maxScore) =
             (if cvnNuE > maxScore then (NuE, cvnNuE) else (predictedClass, maxScore));
          (predictedClass, maxScore) =
             (if cvnNC > maxScore then (NC, cvnNuMu) else (predictedClass, maxScore))
      in (predictedClass, maxScore))"

definition addCVNMax :: "InteractionType \<Rightarrow> double \<Rightarrow> double \<Rightarrow> double \<Rightarrow> double" where
  "addCVNMax signalType cvnNuE cvnNuMu cvnNC =
     (if fst (addCVNMax_locals cvnNuE cvnNuMu cvnNC) = signalType then 1 else 0)"

text \<open>
  The same lambda with the value stored by the second branch left open: \<open>w\<close> stands for
  whatever is written to \<^verbatim>\<open>maxScore\<close> there (the source writes \<^verbatim>\<open>cvnNuMu\<close>, the apparently
  intended code would write \<^verbatim>\<open>cvnNC\<close>).
\<close>

definition addCVNMax_storing :: "double \<Rightarrow> InteractionType \<Rightarrow> double \<Rightarrow> double \<Rightarrow> double \<Rightarrow> double" where
  "addCVNMax_storing w signalType cvnNuE cvnNuMu cvnNC =
     (let predictedClass = NuMu;
          maxScore = cvnNuMu;
          (predictedClass, maxScore) =
             (if cvnNuE > maxScore then (NuE, cvnNuE) else (predictedClass, maxScore));
          (predictedClass, maxScore) =
             (if cvnNC > maxScore then (NC, w) else (predictedClass, maxScore))
      in if predictedClass = signalType then 1 else 0)"

text \<open>
  The specification's reading: the predicted class is the class of the largest score;
  among equal largest scores NuMu wins over NuE and NC, and NuE wins over NC.
\<close>

definition score_of :: "double \<Rightarrow> double \<Rightarrow> double \<Rightarrow> InteractionType \<Rightarrow> double" where
  "score_of cvnNuE cvnNuMu cvnNC c = (case c of NuE \<Rightarrow> cvnNuE | NuMu \<Rightarrow> cvnNuMu | NC \<Rightarrow> cvnNC)"

definition priority :: "InteractionType \<Rightarrow> nat" where
  "priority c = (case c of NuMu \<Rightarrow> 2 | NuE \<Rightarrow> 1 | NC \<Rightarrow> 0)"

definition beats :: "double \<Rightarrow> double \<Rightarrow> double \<Rightarrow> InteractionType \<Rightarrow> InteractionType \<Rightarrow> bool" where
  "beats e m n c d =
     (score_of e m n c > score_of e m n d \<or>
      (score_of e m n c = score_of e m n d \<and> priority c > priority d))"

definition spec_predicted_class :: "double \<Rightarrow> double \<Rightarrow> double \<Rightarrow> InteractionType" where
  "spec_predicted_class e m n =
     (if beats e m n NuMu NuE \<and> beats e m n NuMu NC then NuMu
      else if beats e m n NuE NuMu \<and> beats e m n NuE NC then NuE
      else NC)"

section \<open>CreateEnergyBinnedData.C: metrics of one working point\<close>

record MethodMetrics =
  efficiency :: double
  purity :: double
  fom :: double
  effErr :: "double option"
  purErr :: "double option"
  fomErr :: "double option"

text \<open>
  \<^verbatim>\<open>ComputeMetrics\<close> assigns the six fields in order, each from the fields assigned before
  it. The error fields are \<open>None\<close> where the C++ value is NaN.
\<close>

definition ComputeMetrics :: "double \<Rightarrow> double \<Rightarrow> double \<Rightarrow> MethodMetrics" where
  "ComputeMetrics nSig nBkg totalSignal =
     (let eff = (if totalSignal > 0 then nSig / totalSignal else 0);
          pur = (if (nSig + nBkg) > 0 then nSig / (nSig + nBkg) else 0);
          f = eff * pur;
          eErr = (if totalSignal > 0 then c_sqrt (eff * (1 - eff) / totalSignal) else Some 0);
          pErr = (if (nSig + nBkg) > 0 then c_sqrt (pur * (1 - pur) / (nSig + nBkg)) else Some 0);
          fErr = Option.bind eErr (\<lambda>a. Option.bind pErr (\<lambda>b.
                   c_sqrt ((pur * a) ^ 2 + (eff * b) ^ 2)))
      in \<lparr>efficiency = eff, purity = pur, fom = f,
          effErr = eErr, purErr = pErr, fomErr = fErr\<rparr>)"

section \<open>Errors\<close>

text \<open>
  The sources throw \<^verbatim>\<open>std::runtime_error\<close> with a message; the constructors name the
  failure each message reports: an input file or tree that cannot be read, a signal
  histogram without entries, a bin-edge list with fewer than two entries, and a file
  that cannot be opened or created for writing. \<open>LengthError\<close> is the \<^verbatim>\<open>std::length_error\<close>
  that \<^verbatim>\<open>std::vector::reserve\<close> throws when asked for more than the vector's maximal size.
\<close>

datatype error =
    InputAccessError
  | EmptyDistributionError
  | InvalidBinningError
  | StorageAccessError
  | LengthError

section \<open>Fixed-width histograms\<close>

text \<open>
  \<^verbatim>\<open>GetOptimalCut\<close> books two one-dimensional histograms with \<^verbatim>\<open>nBins\<close> equal bins on
  \<^verbatim>\<open>[minScore, maxScore)\<close> and fills each once per event with unit weight. The class is
  the histogram library's; the embedding follows its documented behaviour on an
  increasing range: cell 0 is the underflow, cells \<open>1 .. fNbins\<close> are the bins and cell
  \<open>fNbins + 1\<close> is the overflow; a bin count that is not positive is replaced by 1;
  an integral over \<open>[binx1, binx2]\<close> clamps its bounds to the cells and adds the contents.
  Bin contents are counts, kept as natural numbers and read as doubles by \<open>Integral\<close>.
\<close>

record TH1D =
  fNbins :: nat
  fXmin :: double
  fXmax :: double
  fArray :: "nat list"

definition TH1D_new :: "int \<Rightarrow> double \<Rightarrow> double \<Rightarrow> TH1D" where
  "TH1D_new nbins xlow xup =
     (let n = (if nbins \<le> 0 then 1 else nat nbins)
      in \<lparr>fNbins = n, fXmin = xlow, fXmax = xup, fArray = replicate (n + 2) 0\<rparr>)"

definition FindBin :: "TH1D \<Rightarrow> double \<Rightarrow> nat" where
  "FindBin h x =
     (if x < fXmin h then 0
      else if \<not> (x < fXmax h) then fNbins h + 1
      else 1 + nat \<lfloor>real (fNbins h) * (x - fXmin h) / (fXmax h - fXmin h)\<rfloor>)"

definition Fill :: "TH1D \<Rightarrow> double \<Rightarrow> TH1D" where
  "Fill h x = (let bin = FindBin h x in h\<lparr>fArray := (fArray h)[bin := fArray h ! bin + 1]\<rparr>)"

definition Histo1D :: "int \<Rightarrow> double \<Rightarrow> double \<Rightarrow> double list \<Rightarrow> TH1D" where
  "Histo1D nbins xlow xup column = fold (\<lambda>x h. Fill h x) column (TH1D_new nbins xlow xup)"

definition GetBinLowEdge :: "TH1D \<Rightarrow> int \<Rightarrow> double" where
  "GetBinLowEdge h bin =
     (let binwidth = (fXmax h - fXmin h) / real (fNbins h)
      in fXmin h + (of_int bin - 1) * binwidth)"

definition Integral :: "TH1D \<Rightarrow> int \<Rightarrow> int \<Rightarrow> double" where
  "Integral h binx1 binx2 =
     (let nx = int (fNbins h) + 2;
          b1 = (if binx1 < 0 then 0 else binx1);
          b2 = (if binx2 \<ge> nx \<or> binx2 < b1 then nx - 1 else binx2)
      in real (sum_list (map (\<lambda>b. fArray h ! nat b) [b1..b2])))"

definition Integral_all :: "TH1D \<Rightarrow> double" where
  "Integral_all h = Integral h 1 (int (fNbins h))"

section \<open>GetOptimalCut.C: the threshold sweep\<close>

text \<open>
  The loop over the candidate cuts appends to four vectors, one entry each per bin.
\<close>

record sweep_vectors =
  cuts :: "double list"
  efficiencies :: "double list"
  purities :: "double list"
  fomValues :: "double list"

definition no_points :: sweep_vectors where
  "no_points = \<lparr>cuts = [], efficiencies = [], purities = [], fomValues = []\<rparr>"

definition sweep_step :: "TH1D \<Rightarrow> TH1D \<Rightarrow> double \<Rightarrow> int \<Rightarrow> int \<Rightarrow> sweep_vectors \<Rightarrow> sweep_vectors" where
  "sweep_step hSignal hBackground totalSignal nBins i v =
     (let cutValue = GetBinLowEdge hSignal i;
          tp = Integral hSignal i nBins;
          fp = Integral hBackground i nBins;
          eff = tp / totalSignal;
          pur = (if tp + fp > 0 then tp / (tp + fp) else 0);
          f = eff * pur
      in \<lparr>cuts = cuts v @ [cutValue], efficiencies = efficiencies v @ [eff],
          purities = purities v @ [pur], fomValues = fomValues v @ [f]\<rparr>)"

function sweep_loop :: "TH1D \<Rightarrow> TH1D \<Rightarrow> double \<Rightarrow> int \<Rightarrow> int \<Rightarrow> sweep_vectors \<Rightarrow> sweep_vectors" where
  "sweep_loop hSignal hBackground totalSignal nBins i v =
     (if i \<le> nBins
      then sweep_loop hSignal hBackground totalSignal nBins (i + 1)
             (sweep_step hSignal hBackground totalSignal nBins i v)
      else v)"
  by pat_completeness auto
termination
  by (relation "measure (\<lambda>(hS, hB, t, nBins, i, v). nat (nBins + 1 - i))") auto

declare sweep_loop.simps [simp del]

text \<open>
  Lines 70 to 100 of \<^verbatim>\<open>GetOptimalCut\<close>: both histograms, the guard on the signal integral,
  the reservation of the four vectors and the loop, from the two score columns.
  \<^verbatim>\<open>cuts.reserve(nBins)\<close> takes an unsigned size: a negative \<^verbatim>\<open>nBins\<close> wraps to a size beyond
  the vector's maximum and the call throws; every \<^verbatim>\<open>nBins\<close> from 0 on is within it.
\<close>

definition sweep :: "double list \<Rightarrow> double list \<Rightarrow> int \<Rightarrow> double \<Rightarrow> double \<Rightarrow> error + sweep_vectors" where
  "sweep signalScores backgroundScores nBins minScore maxScore =
     (let hSignal = Histo1D nBins minScore maxScore signalScores;
          hBackground = Histo1D nBins minScore maxScore backgroundScores;
          totalSignal = Integral_all hSignal
      in if totalSignal \<le> 0 then Inl EmptyDistributionError
         else if nBins < 0 then Inl LengthError
         else Inr (sweep_loop hSignal hBackground totalSignal nBins 1 no_points))"

section \<open>UpdateOrInsertByKey.C: the keyed results tree\<close>

text \<open>
  A stored tree is the list of its entries in fill order; an entry gives the value of
  each of its branches, a string for the key branch and a double for the others. All
  entries of one tree carry the same branches. A file maps tree names to trees.
\<close>

datatype cell = Str string | Num double

type_synonym row = "string \<rightharpoonup> cell"

type_synonym TTree = "row list"

type_synonym root_file = "string \<rightharpoonup> TTree"

text \<open>
  \<^verbatim>\<open>GetEntry\<close> loads an entry into the holders bound with \<^verbatim>\<open>SetBranchAddress\<close>. A holder
  whose branch the stored tree does not have is never written and keeps its initial
  value, the empty string for \<^verbatim>\<open>currentKey\<close> and 0.0 for a value holder.
\<close>

definition read_key :: "string \<Rightarrow> row \<Rightarrow> string" where
  "read_key keyBranch entry = (case entry keyBranch of Some (Str s) \<Rightarrow> s | _ \<Rightarrow> [])"

definition read_value :: "row \<Rightarrow> string \<Rightarrow> double" where
  "read_value entry b = (case entry b of Some (Num v) \<Rightarrow> v | _ \<Rightarrow> 0)"

text \<open>
  \<^verbatim>\<open>Fill\<close> on a tree whose branches are the key branch, bound to \<^verbatim>\<open>keyHolder\<close>, and one
  branch per name of \<^verbatim>\<open>branchValuesHolder\<close> records this entry.
\<close>

definition filled_row :: "string \<Rightarrow> string \<Rightarrow> (string \<rightharpoonup> double) \<Rightarrow> row" where
  "filled_row keyBranch keyHolder branchValuesHolder =
     (\<lambda>b. map_option Num (branchValuesHolder b))(keyBranch \<mapsto> Str keyHolder)"

text \<open>
  One pass of the loop over the old entries (lines 100 to 117): the entry is loaded,
  \<^verbatim>\<open>keyHolder\<close> and every holder of \<^verbatim>\<open>branchValuesHolder\<close> (one per name of \<^verbatim>\<open>values\<close>) are
  set from it, the holders are overwritten with the supplied values where the key
  matches, and the temporary tree is filled. The result is the entry filled and the new
  value of \<^verbatim>\<open>entryUpdated\<close>.
\<close>

definition copy_entry :: "string \<Rightarrow> string \<Rightarrow> (string \<rightharpoonup> double) \<Rightarrow> row \<Rightarrow> bool \<Rightarrow> row \<times> bool" where
  "copy_entry keyBranch keyValue values entry entryUpdated =
     (let currentKey = read_key keyBranch entry;
          keyHolder = currentKey;
          branchValuesHolder =
            (\<lambda>b. case values b of None \<Rightarrow> None | Some _ \<Rightarrow> Some (read_value entry b));
          (branchValuesHolder, entryUpdated) =
             (if currentKey = keyValue then (branchValuesHolder ++ values, True)
              else (branchValuesHolder, entryUpdated))
      in (filled_row keyBranch keyHolder branchValuesHolder, entryUpdated))"

text \<open>The loop, with the temporary tree and the flag as its state.\<close>

fun copy_entries :: "string \<Rightarrow> string \<Rightarrow> (string \<rightharpoonup> double) \<Rightarrow> TTree \<Rightarrow> TTree \<times> bool \<Rightarrow> TTree \<times> bool" where
  "copy_entries keyBranch keyValue values [] st = st"
| "copy_entries keyBranch keyValue values (entry # rest) (updatedTree, entryUpdated) =
     (let (filled, entryUpdated) = copy_entry keyBranch keyValue values entry entryUpdated
      in copy_entries keyBranch keyValue values rest (updatedTree @ [filled], entryUpdated))"

text \<open>
  The first argument is what opening the file in update mode gives: \<open>None\<close> when it
  cannot be opened, otherwise its trees (none for a file just created). A tree that is
  missing is created empty, and a tree without entries takes the same branch as a
  missing one; it then consists of the one entry filled.
\<close>

definition UpdateOrInsertByKey ::
  "root_file option \<Rightarrow> string \<Rightarrow> string \<Rightarrow> string \<Rightarrow> (string \<rightharpoonup> double) \<Rightarrow> error + root_file" where
  "UpdateOrInsertByKey file treeName keyBranch keyValue values =
     (case file of
        None \<Rightarrow> Inl StorageAccessError
      | Some f \<Rightarrow>
          (let tree = (case f treeName of None \<Rightarrow> [] | Some t \<Rightarrow> t)
           in if length tree > 0
              then (let (updatedTree, entryUpdated) =
                          copy_entries keyBranch keyValue values tree ([], False);
                        updatedTree =
                          (if \<not> entryUpdated
                           then updatedTree @ [filled_row keyBranch keyValue values]
                           else updatedTree)
                    in Inr (f(treeName \<mapsto> updatedTree)))
              else Inr (f(treeName \<mapsto> tree @ [filled_row keyBranch keyValue values]))))"

text \<open>Observations of a result: the number of entries of a tree and one cell of it.\<close>

definition entries_of :: "error + root_file \<Rightarrow> string \<Rightarrow> nat option" where
  "entries_of res treeName =
     (case res of Inl _ \<Rightarrow> None
      | Inr f \<Rightarrow> (case f treeName of None \<Rightarrow> None | Some t \<Rightarrow> Some (length t)))"

definition cell_of :: "error + root_file \<Rightarrow> string \<Rightarrow> nat \<Rightarrow> string \<Rightarrow> cell option" where
  "cell_of res treeName i b =
     (case res of Inl _ \<Rightarrow> None
      | Inr f \<Rightarrow> (case f treeName of None \<Rightarrow> None
                 | Some t \<Rightarrow> if i < length t then (t ! i) b else None))"

section \<open>Input files\<close>

text \<open>
  An input file holds the trees \<^verbatim>\<open>Signal\<close> and \<^verbatim>\<open>Background\<close>; an event gives the true
  energy and, for each classifier branch, its score.
\<close>

record event =
  TrueNuE :: double
  score :: "string \<Rightarrow> double"

record input_file =
  Signal :: "event list"
  Background :: "event list"

section \<open>GetOptimalCut.C: the optimal cut\<close>

text \<open>
  The interpolation and the one-dimensional maximiser are library calls; they are
  parameters here: \<open>RooSpline xs ys\<close> is the curve through the points and
  \<open>GetMaximumX g a b\<close> is the maximiser's abscissa for \<open>g\<close> on \<open>[a, b]\<close>. The three curves
  read the shared variable \<^verbatim>\<open>x\<close>, and the function handed to the maximiser moves \<^verbatim>\<open>x\<close> to
  every point it is evaluated at. After \<^verbatim>\<open>GetMaximumX\<close> the code sets \<^verbatim>\<open>x\<close> to the best cut;
  the later call of \<^verbatim>\<open>GetMaximum\<close> moves it again, so \<open>GetMaximum g a b x\<close> gives the maximal
  value together with the value \<^verbatim>\<open>x\<close> is left at (the given \<open>x\<close> if \<open>g\<close> is not evaluated), and
  the efficiency and purity curves are read there.
  \<open>inputFile\<close> is \<open>None\<close> when the path cannot be accessed. An empty \<open>resultsFile\<close> path
  skips the logging; otherwise \<open>resultsOpened\<close> is what opening that file gives. The
  result is the best cut and, when logged, the new content of the results file. The
  optional plot is not modelled.
\<close>

definition GetOptimalCut ::
  "(double list \<Rightarrow> double list \<Rightarrow> double \<Rightarrow> double) \<Rightarrow>
   ((double \<Rightarrow> double) \<Rightarrow> double \<Rightarrow> double \<Rightarrow> double) \<Rightarrow>
   ((double \<Rightarrow> double) \<Rightarrow> double \<Rightarrow> double \<Rightarrow> double \<Rightarrow> double \<times> double) \<Rightarrow>
   input_file option \<Rightarrow> string \<Rightarrow> string \<Rightarrow> root_file option \<Rightarrow> string \<Rightarrow>
   int \<Rightarrow> double \<Rightarrow> double \<Rightarrow> error + double \<times> root_file option" where
  "GetOptimalCut RooSpline GetMaximumX GetMaximum inputFile mvaBranch resultsFile resultsOpened
       resultsTree nBins minScore maxScore =
     (case inputFile of
        None \<Rightarrow> Inl InputAccessError
      | Some f \<Rightarrow>
          (case sweep (map (\<lambda>e. score e mvaBranch) (Signal f))
                      (map (\<lambda>e. score e mvaBranch) (Background f)) nBins minScore maxScore of
             Inl e \<Rightarrow> Inl e
           | Inr v \<Rightarrow>
               (let effSpline = RooSpline (cuts v) (efficiencies v);
                    purSpline = RooSpline (cuts v) (purities v);
                    fomSpline = RooSpline (cuts v) (fomValues v);
                    bestCut = GetMaximumX fomSpline minScore maxScore;
                    x = bestCut;
                    (bestFoM, x) = GetMaximum fomSpline minScore maxScore x;
                    bestEff = effSpline x;
                    bestPur = purSpline x
                in if resultsFile \<noteq> []
                   then (let logValues = [''MaxCut'' \<mapsto> bestCut, ''Efficiency'' \<mapsto> bestEff,
                                          ''Purity'' \<mapsto> bestPur, ''FoM'' \<mapsto> bestFoM]
                         in case UpdateOrInsertByKey resultsOpened resultsTree ''Method''
                                   mvaBranch logValues of
                              Inl e \<Rightarrow> Inl e
                            | Inr f' \<Rightarrow> Inr (bestCut, Some f'))
                   else Inr (bestCut, None))))"

section \<open>The curve fit and the maximiser, as the specification describes them\<close>

text \<open>
  Modelled from the spec: the curve fit (\<^verbatim>\<open>RooSpline\<close>) is a library class that is not
  part of the sources. Section 4.3 of the specification asks the fitted curve to
  reproduce the input points at the grid nodes.
\<close>

definition reproduces_points :: "(double list \<Rightarrow> double list \<Rightarrow> double \<Rightarrow> double) \<Rightarrow> bool" where
  "reproduces_points fit =
     (\<forall>xs ys i. length ys = length xs \<and> distinct xs \<and> i < length xs \<longrightarrow>
                fit xs ys (xs ! i) = ys ! i)"

text \<open>
  Modelled from the spec: the one-dimensional maximiser (\<^verbatim>\<open>TF1::GetMaximumX\<close>) is a
  library routine that is not part of the sources. Section 4.4 of the specification asks
  it for the global maximum over the full domain, ties broken by the lowest cut value:
  \<open>c\<close> is such a maximum of \<open>g\<close> on \<open>[a, b]\<close>.
\<close>

definition lowest_global_maximum :: "(double \<Rightarrow> double) \<Rightarrow> double \<Rightarrow> double \<Rightarrow> double \<Rightarrow> bool" where
  "lowest_global_maximum g a b c =
     (a \<le> c \<and> c \<le> b \<and> (\<forall>x. a \<le> x \<and> x \<le> b \<longrightarrow> g x \<le> g c \<and> (g x = g c \<longrightarrow> c \<le> x)))"

section \<open>CreateEnergyBinnedData.C: metrics per energy bin\<close>

text \<open>
  The event filters are built as text with \<^verbatim>\<open>Form("... %f ...")\<close>, which prints a bound
  with six decimals, rounding to nearest with ties to even; the filter compares against
  the printed number.
\<close>

definition Form_f :: "double \<Rightarrow> double" where
  "Form_f x =
     (let y = x * 1000000; n = \<lfloor>y\<rfloor>; d = y - of_int n
      in of_int (if d < 1/2 then n else if d > 1/2 then n + 1
                 else if even n then n else n + 1) / 1000000)"

record EnergyBinRow =
  binMin :: double
  binMax :: double
  binMid :: double
  binCount :: double
  methodMetrics :: "string \<rightharpoonup> MethodMetrics"

definition energy_bin_row :: "input_file \<Rightarrow> (string \<rightharpoonup> double) \<Rightarrow> double list \<Rightarrow> nat \<Rightarrow> EnergyBinRow" where
  "energy_bin_row f methodCutValues energyBinEdges i =
     (let bMin = energyBinEdges ! i;
          bMax = energyBinEdges ! (i + 1);
          bMid = 0.5 * (bMin + bMax);
          inBin = (\<lambda>e. TrueNuE e \<ge> Form_f bMin \<and> TrueNuE e < Form_f bMax);
          sigBin = filter inBin (Signal f);
          bkgBin = filter inBin (Background f);
          nSigTotal = real (length sigBin);
          nBkgTotal = real (length bkgBin)
      in \<lparr>binMin = bMin, binMax = bMax, binMid = bMid, binCount = nSigTotal + nBkgTotal,
          methodMetrics = (\<lambda>methodName.
             case methodCutValues methodName of
               None \<Rightarrow> None
             | Some cutValue \<Rightarrow>
                 (let nSig = real (length (filter (\<lambda>e. score e methodName > Form_f cutValue) sigBin));
                      nBkg = real (length (filter (\<lambda>e. score e methodName > Form_f cutValue) bkgBin))
                  in Some (ComputeMetrics nSig nBkg nSigTotal)))\<rparr>)"

text \<open>
  \<open>inputFile\<close> is \<open>None\<close> when the input cannot be accessed, \<open>outputCreated\<close> tells whether
  the output file could be created. The result is the list of entries written to the
  output tree; an error leaves no output tree.
\<close>

definition CreateEnergyBinnedData ::
  "input_file option \<Rightarrow> bool \<Rightarrow> (string \<rightharpoonup> double) \<Rightarrow> double list \<Rightarrow> error + EnergyBinRow list" where
  "CreateEnergyBinnedData inputFile outputCreated methodCutValues energyBinEdges =
     (if length energyBinEdges < 2 then Inl InvalidBinningError
      else case inputFile of
             None \<Rightarrow> Inl InputAccessError
           | Some f \<Rightarrow>
               if \<not> outputCreated then Inl StorageAccessError
               else Inr (map (energy_bin_row f methodCutValues energyBinEdges)
                           [0 ..< length energyBinEdges - 1]))"

section \<open>Properties\<close>

lemma addCVNMax_locals_class:
  "fst (addCVNMax_locals e m n) = (if n > max e m then NC else if e > m then NuE else NuMu)"
  by (simp add: addCVNMax_locals_def Let_def max_def)

lemma spec_predicted_class_eq:
  "spec_predicted_class e m n = (if n > max e m then NC else if e > m then NuE else NuMu)"
  by (auto simp add: spec_predicted_class_def beats_def score_of_def priority_def max_def)

lemma Fill_fields [simp]:
  "fNbins (Fill h x) = fNbins h" "fXmin (Fill h x) = fXmin h" "fXmax (Fill h x) = fXmax h"
  "length (fArray (Fill h x)) = length (fArray h)"
  by (simp_all add: Fill_def Let_def)

lemma fold_Fill_fields:
  "fNbins (fold (\<lambda>x h. Fill h x) xs h) = fNbins h \<and>
   fXmin (fold (\<lambda>x h. Fill h x) xs h) = fXmin h \<and>
   fXmax (fold (\<lambda>x h. Fill h x) xs h) = fXmax h \<and>
   length (fArray (fold (\<lambda>x h. Fill h x) xs h)) = length (fArray h)"
  by (induction xs arbitrary: h) simp_all

lemma Histo1D_fields:
  "fNbins (Histo1D n lo hi xs) = (if n \<le> 0 then 1 else nat n)"
  "fXmin (Histo1D n lo hi xs) = lo"
  "fXmax (Histo1D n lo hi xs) = hi"
  by (simp_all add: Histo1D_def fold_Fill_fields TH1D_new_def Let_def)

lemma sweep_loop_vectors:
  "sweep_loop hS hB t n i v =
     \<lparr>cuts = cuts v @ map (GetBinLowEdge hS) [i..n],
      efficiencies = efficiencies v @ map (\<lambda>k. Integral hS k n / t) [i..n],
      purities = purities v @ map (\<lambda>k. if Integral hS k n + Integral hB k n > 0
                   then Integral hS k n / (Integral hS k n + Integral hB k n) else 0) [i..n],
      fomValues = fomValues v @ map (\<lambda>k. Integral hS k n / t *
                   (if Integral hS k n + Integral hB k n > 0
                    then Integral hS k n / (Integral hS k n + Integral hB k n) else 0)) [i..n]\<rparr>"
proof (induction hS hB t n i v rule: sweep_loop.induct)
  case (1 hS hB t n i v)
  show ?case
  proof (cases "i \<le> n")
    case True
    then have u: "[i..n] = i # [i + 1..n]" by (simp add: upto_rec1)
    have "sweep_loop hS hB t n i v = sweep_loop hS hB t n (i + 1) (sweep_step hS hB t n i v)"
      by (subst sweep_loop.simps) (simp add: True)
    also note "1.IH" [OF True]
    finally show ?thesis
      by (simp add: u sweep_step_def Let_def)
  next
    case False
    then show ?thesis by (subst sweep_loop.simps) simp
  qed
qed

lemma Integral_bins:
  assumes "1 \<le> i" "i \<le> n" "fNbins h = nat n"
  shows "Integral h i n = real (sum_list (map (\<lambda>b. fArray h ! nat b) [i..n]))"
  using assms by (simp add: Integral_def Let_def)

lemma Integral_nonneg: "0 \<le> Integral h i n"
  by (simp add: Integral_def Let_def)

lemma Integral_antimono:
  assumes "1 \<le> i" "i \<le> j" "j \<le> n" "fNbins h = nat n"
  shows "Integral h j n \<le> Integral h i n"
proof -
  have "[i..n] = [i..j - 1] @ [j..n]"
    using assms upto_split1 [of i j n] by simp
  then show ?thesis
    using assms by (simp add: Integral_bins)
qed

lemma Fill_empty_range:
  assumes "fXmax h \<le> fXmin h" "1 \<le> b" "b \<le> fNbins h"
  shows "fArray (Fill h x) ! b = fArray h ! b"
  using assms by (simp add: Fill_def Let_def FindBin_def)

lemma fold_Fill_empty_range:
  assumes "fXmax h \<le> fXmin h" "1 \<le> b" "b \<le> fNbins h"
  shows "fArray (fold (\<lambda>x h. Fill h x) xs h) ! b = fArray h ! b"
  using assms
proof (induction xs arbitrary: h)
  case Nil
  then show ?case by simp
next
  case (Cons x xs)
  then show ?case by (simp add: Fill_empty_range)
qed

lemma Histo1D_empty_range:
  assumes "hi \<le> lo"
  shows "Integral_all (Histo1D n lo hi xs) = 0"
proof -
  let ?h = "Histo1D n lo hi xs"
  let ?m = "if n \<le> 0 then 1 else nat n"
  have nb: "fNbins ?h = ?m" by (rule Histo1D_fields)
  have "fArray ?h ! nat b = 0" if "b \<in> set [1..int ?m]" for b
  proof -
    from that have b: "1 \<le> nat b" "nat b \<le> ?m" by auto
    have "fArray ?h ! nat b = fArray (TH1D_new n lo hi) ! nat b"
      unfolding Histo1D_def
      by (rule fold_Fill_empty_range) (use b assms in \<open>simp_all add: TH1D_new_def Let_def\<close>)
    also have "\<dots> = 0" using b by (auto simp add: TH1D_new_def Let_def nth_Cons')
    finally show ?thesis .
  qed
  then have z: "sum_list (map (\<lambda>b. fArray ?h ! nat b) [1..int ?m]) = 0"
    by (simp add: sum_list_eq_0_iff)
  have "Integral ?h 1 (int ?m) = real (sum_list (map (\<lambda>b. fArray ?h ! nat b) [1..int ?m]))"
  proof (rule Integral_bins)
    show "1 \<le> int ?m" by (cases "n \<le> 0") auto
    show "fNbins ?h = nat (int ?m)" using nb by simp
  qed simp
  with z show ?thesis
    unfolding Integral_all_def nb by simp
qed

lemma example_hSignal: "Histo1D 4 0 1 [0.9,0.8,0.7,0.2] = \<lparr>fNbins = 4, fXmin = 0, fXmax = 1, fArray = [0,1,0,1,2,0]\<rparr>"
  by (simp add: Histo1D_def TH1D_new_def Fill_def FindBin_def Let_def eval_nat_numeral)

lemma example_hBackground: "Histo1D 4 0 1 [0.1,0.2,0.3,0.9] = \<lparr>fNbins = 4, fXmin = 0, fXmax = 1, fArray = [0,2,1,0,1,0]\<rparr>"
  by (simp add: Histo1D_def TH1D_new_def Fill_def FindBin_def Let_def eval_nat_numeral)

lemma upto_1_4: "[1..(4::int)] = [1, 2, 3, 4]"
  by (simp add: upto_rec1)

lemma example_sweep: "sweep [0.9,0.8,0.7,0.2] [0.1,0.2,0.3,0.9] 4 0 1 =
   Inr \<lparr>cuts = [0, 1/4, 1/2, 3/4], efficiencies = [1, 3/4, 3/4, 1/2],
        purities = [1/2, 3/5, 3/4, 2/3], fomValues = [1/2, 9/20, 9/16, 1/3]\<rparr>"
  unfolding sweep_def example_hSignal example_hBackground
  by (simp add: Let_def Integral_all_def sweep_loop_vectors no_points_def upto_1_4 Integral_def GetBinLowEdge_def upto_rec1)

lemma sweep_ok:
  assumes "Integral_all (Histo1D nBins lo hi sig) > 0" and "0 \<le> nBins"
  shows "sweep sig bkg nBins lo hi =
           Inr (sweep_loop (Histo1D nBins lo hi sig) (Histo1D nBins lo hi bkg)
                  (Integral_all (Histo1D nBins lo hi sig)) nBins 1 no_points)"
  using assms by (simp add: sweep_def Let_def)

lemma nth_map_upto_1:
  assumes "1 \<le> i" "i \<le> n"
  shows "map f [1..n] ! nat (i - 1) = f i"
proof -
  have "nat (i - 1) < length [1..n]" using assms by simp
  moreover have "[1..n] ! nat (i - 1) = i" using assms by (simp add: nth_upto)
  ultimately show ?thesis by (simp del: length_upto)
qed

lemma GetBinLowEdge_strict:
  assumes "fXmin h < fXmax h" "0 < fNbins h" "i < j"
  shows "GetBinLowEdge h i < GetBinLowEdge h j"
proof -
  define w where "w = (fXmax h - fXmin h) / real (fNbins h)"
  have "0 < w" using assms by (simp add: w_def)
  moreover have "real_of_int i - 1 < real_of_int j - 1" using assms(3) by simp
  ultimately have "(real_of_int i - 1) * w < (real_of_int j - 1) * w"
    by (simp add: mult_strict_right_mono)
  then show ?thesis
    unfolding GetBinLowEdge_def Let_def w_def by simp
qed

lemma sweep_loop_efficiency_bounds:
  assumes t: "Integral_all (Histo1D nBins lo hi sig) > 0"
  shows "\<forall>e \<in> set (efficiencies (sweep_loop (Histo1D nBins lo hi sig) hB
              (Integral_all (Histo1D nBins lo hi sig)) nBins 1 no_points)). 0 \<le> e \<and> e \<le> 1"
proof
  let ?hS = "Histo1D nBins lo hi sig"
  let ?t = "Integral_all ?hS"
  fix e assume "e \<in> set (efficiencies (sweep_loop ?hS hB ?t nBins 1 no_points))"
  then obtain k where k: "1 \<le> k" "k \<le> nBins" and e: "e = Integral ?hS k nBins / ?t"
    by (auto simp add: sweep_loop_vectors no_points_def)
  have nS: "fNbins ?hS = nat nBins" using k by (simp add: Histo1D_fields)
  have "Integral ?hS k nBins \<le> Integral ?hS 1 nBins"
    using k nS by (intro Integral_antimono) simp_all
  also have "Integral ?hS 1 nBins = ?t"
    using k nS by (simp add: Integral_all_def)
  finally show "0 \<le> e \<and> e \<le> 1"
    using t by (simp add: e Integral_nonneg)
qed

lemma sweep_loop_efficiency_antimono:
  assumes t: "Integral_all (Histo1D nBins lo hi sig) > 0"
    and ij: "i \<le> j" "j < length (efficiencies (sweep_loop (Histo1D nBins lo hi sig) hB
              (Integral_all (Histo1D nBins lo hi sig)) nBins 1 no_points))"
  shows "efficiencies (sweep_loop (Histo1D nBins lo hi sig) hB
              (Integral_all (Histo1D nBins lo hi sig)) nBins 1 no_points) ! j
       \<le> efficiencies (sweep_loop (Histo1D nBins lo hi sig) hB
              (Integral_all (Histo1D nBins lo hi sig)) nBins 1 no_points) ! i"
proof -
  let ?hS = "Histo1D nBins lo hi sig"
  let ?t = "Integral_all ?hS"
  from ij have j: "int j < nBins" and n: "1 \<le> nBins"
    by (simp_all add: sweep_loop_vectors no_points_def)
  have nS: "fNbins ?hS = nat nBins" using n by (simp add: Histo1D_fields)
  have "Integral ?hS (1 + int j) nBins \<le> Integral ?hS (1 + int i) nBins"
    using ij j nS by (intro Integral_antimono) simp_all
  then have "Integral ?hS (1 + int j) nBins / ?t \<le> Integral ?hS (1 + int i) nBins / ?t"
    using t by (simp add: divide_right_mono)
  then show ?thesis
    using ij j by (simp add: sweep_loop_vectors no_points_def nth_upto)
qed

lemma sweep_loop_cuts_mono:
  assumes t: "Integral_all (Histo1D nBins lo hi sig) > 0"
    and ij: "i \<le> j" "j < length (cuts (sweep_loop (Histo1D nBins lo hi sig) hB
              (Integral_all (Histo1D nBins lo hi sig)) nBins 1 no_points))"
  shows "cuts (sweep_loop (Histo1D nBins lo hi sig) hB
              (Integral_all (Histo1D nBins lo hi sig)) nBins 1 no_points) ! i
       \<le> cuts (sweep_loop (Histo1D nBins lo hi sig) hB
              (Integral_all (Histo1D nBins lo hi sig)) nBins 1 no_points) ! j"
proof -
  let ?hS = "Histo1D nBins lo hi sig"
  from ij have j: "int j < nBins" and n: "1 \<le> nBins"
    by (simp_all add: sweep_loop_vectors no_points_def)
  have range: "lo < hi"
    using Histo1D_empty_range [of hi lo nBins sig] t by (cases "lo < hi") simp_all
  have "GetBinLowEdge ?hS (1 + int i) \<le> GetBinLowEdge ?hS (1 + int j)"
  proof (cases "i = j")
    case True
    then show ?thesis by simp
  next
    case False
    with ij have "1 + int i < 1 + int j" by simp
    then have "GetBinLowEdge ?hS (1 + int i) < GetBinLowEdge ?hS (1 + int j)"
      using range n by (intro GetBinLowEdge_strict) (simp_all add: Histo1D_fields)
    then show ?thesis by simp
  qed
  then show ?thesis
    using ij j by (simp add: sweep_loop_vectors no_points_def nth_upto)
qed

lemma copy_entries_eq:
  "copy_entries kb k vals t (out, upd) =
     (out @ map (\<lambda>e. fst (copy_entry kb k vals e False)) t,
      upd \<or> (\<exists>e \<in> set t. read_key kb e = k))"
proof (induction t arbitrary: out upd)
  case Nil
  then show ?case by simp
next
  case (Cons e t)
  have fst_eq: "fst (copy_entry kb k vals e upd) = fst (copy_entry kb k vals e False)"
    by (simp add: copy_entry_def Let_def)
  have snd_eq: "snd (copy_entry kb k vals e upd) = (upd \<or> read_key kb e = k)"
    by (simp add: copy_entry_def Let_def)
  show ?case
    using Cons.IH [of "out @ [fst (copy_entry kb k vals e upd)]" "snd (copy_entry kb k vals e upd)"]
    by (auto simp add: case_prod_unfold fst_eq snd_eq)
qed

lemma copy_entry_cells:
  "fst (copy_entry kb k vals e u) kb = Some (Str (read_key kb e))"
  "b \<noteq> kb \<Longrightarrow> fst (copy_entry kb k vals e u) b =
      (if read_key kb e = k then map_option Num (vals b)
       else (case vals b of None \<Rightarrow> None | Some _ \<Rightarrow> Some (Num (read_value e b))))"
  by (auto simp add: copy_entry_def Let_def filled_row_def map_add_def split: option.splits)

lemma copy_entry_key: "read_key kb (fst (copy_entry kb k vals e u)) = read_key kb e"
  using copy_entry_cells(1) [of kb k vals e u] by (simp add: read_key_def)

lemma upsert_existing_match:
  assumes "f T = Some t" "\<exists>e \<in> set t. read_key kb e = k"
  shows "UpdateOrInsertByKey (Some f) T kb k vals =
           Inr (f(T \<mapsto> map (\<lambda>e. fst (copy_entry kb k vals e False)) t))"
proof -
  from assms have "t \<noteq> []" by auto
  then show ?thesis
    using assms by (simp add: UpdateOrInsertByKey_def Let_def copy_entries_eq)
qed

lemma upsert_existing_nomatch:
  assumes "f T = Some t" "\<forall>e \<in> set t. read_key kb e \<noteq> k"
  shows "UpdateOrInsertByKey (Some f) T kb k vals =
           Inr (f(T \<mapsto> map (\<lambda>e. fst (copy_entry kb k vals e False)) t @ [filled_row kb k vals]))"
  using assms by (cases "t = []") (simp_all add: UpdateOrInsertByKey_def Let_def copy_entries_eq)

lemma upsert_missing:
  assumes "f T = None"
  shows "UpdateOrInsertByKey (Some f) T kb k vals = Inr (f(T \<mapsto> [filled_row kb k vals]))"
  using assms by (simp add: UpdateOrInsertByKey_def Let_def)

lemma sweep_negative_bins:
  assumes "Integral_all (Histo1D nBins lo hi sig) > 0" and "nBins < 0"
  shows "sweep sig bkg nBins lo hi = Inl LengthError"
  using assms by (simp add: sweep_def Let_def)

lemma sweep_Inr:
  assumes "sweep sig bkg nBins lo hi = Inr v"
  shows "Integral_all (Histo1D nBins lo hi sig) > 0 \<and> 0 \<le> nBins \<and>
         v = sweep_loop (Histo1D nBins lo hi sig) (Histo1D nBins lo hi bkg)
               (Integral_all (Histo1D nBins lo hi sig)) nBins 1 no_points"
  using assms by (simp add: sweep_def Let_def split: if_splits)

lemma GetBinLowEdge_in_range:
  assumes "fXmin h < fXmax h" "1 \<le> i" "i \<le> int (fNbins h)"
  shows "fXmin h \<le> GetBinLowEdge h i \<and> GetBinLowEdge h i \<le> fXmax h"
proof -
  define n where "n = real (fNbins h)"
  define d where "d = fXmax h - fXmin h"
  have n: "0 < n" and d: "0 < d" and i: "0 \<le> real_of_int i - 1" "real_of_int i - 1 \<le> n"
    using assms by (simp_all add: n_def d_def)
  have "(real_of_int i - 1) * (d / n) \<le> n * (d / n)"
    using i n d by (intro mult_right_mono) simp_all
  also have "\<dots> = d" using n by simp
  finally have "(real_of_int i - 1) * (d / n) \<le> d" .
  moreover have "0 \<le> (real_of_int i - 1) * (d / n)" using i n d by simp
  ultimately show ?thesis
    unfolding GetBinLowEdge_def Let_def n_def d_def by simp
qed

lemma GetOptimalCut_Inr:
  assumes "GetOptimalCut RooSpline GetMaximumX GetMaximum (Some f) mvaBranch resultsFile
             resultsOpened resultsTree nBins lo hi = Inr (bestCut, logged)"
    and "sweep (map (\<lambda>e. score e mvaBranch) (Signal f))
               (map (\<lambda>e. score e mvaBranch) (Background f)) nBins lo hi = Inr v"
  shows "bestCut = GetMaximumX (RooSpline (cuts v) (fomValues v)) lo hi"
  using assms
  by (auto simp add: GetOptimalCut_def Let_def case_prod_unfold split: if_splits sum.splits)

text \<open>
  C3. For every pair of samples whose signal histogram has a positive integral and every
  \<open>nBins \<ge> 1\<close>, the sweep returns exactly \<open>nBins\<close> points with strictly ascending cuts; the
  \<open>i\<close>-th point (\<open>i = 1 .. nBins\<close>) has the lower edge of bin \<open>i\<close> as its cut, and its
  efficiency, purity and fom are those that \<open>ComputeMetrics\<close> gives for \<open>tp\<close>, \<open>fp\<close> and the
  full signal integral, where \<open>tp\<close> and \<open>fp\<close> are the sums of the contents of bins \<open>i .. nBins\<close>
  of the signal and the background histogram. In particular, for signal scores
  \<open>[0.9, 0.8, 0.7, 0.2]\<close>, background scores \<open>[0.1, 0.2, 0.3, 0.9]\<close>, four bins on \<open>[0, 1]\<close>, the
  fourth point has cut 0.75, \<open>tp = 2\<close>, \<open>fp = 1\<close>, efficiency 1/2, purity 2/3 and fom 1/3.
\<close>

theorem sweep_points:
  "(Integral_all (Histo1D nBins minScore maxScore signalScores) > 0 \<and> nBins \<ge> 1 \<longrightarrow>
      (\<exists>v. sweep signalScores backgroundScores nBins minScore maxScore = Inr v \<and>
           length (cuts v) = nat nBins \<and> length (efficiencies v) = nat nBins \<and>
           length (purities v) = nat nBins \<and> length (fomValues v) = nat nBins \<and>
           sorted_wrt (<) (cuts v) \<and>
           (\<forall>i. 1 \<le> i \<and> i \<le> nBins \<longrightarrow>
              (let hSignal = Histo1D nBins minScore maxScore signalScores;
                   hBackground = Histo1D nBins minScore maxScore backgroundScores;
                   tp = real (sum_list (map (\<lambda>b. fArray hSignal ! nat b) [i..nBins]));
                   fp = real (sum_list (map (\<lambda>b. fArray hBackground ! nat b) [i..nBins]));
                   m = ComputeMetrics tp fp (Integral_all hSignal)
               in Integral hSignal i nBins = tp \<and> Integral hBackground i nBins = fp \<and>
                  cuts v ! nat (i - 1) = GetBinLowEdge hSignal i \<and>
                  efficiencies v ! nat (i - 1) = efficiency m \<and>
                  purities v ! nat (i - 1) = purity m \<and>
                  fomValues v ! nat (i - 1) = fom m))))
   \<and> (let hSignal = Histo1D 4 0 1 [0.9, 0.8, 0.7, 0.2];
           hBackground = Histo1D 4 0 1 [0.1, 0.2, 0.3, 0.9]
       in GetBinLowEdge hSignal 4 = 0.75 \<and> Integral hSignal 4 4 = 2 \<and> Integral hBackground 4 4 = 1 \<and>
          sweep [0.9, 0.8, 0.7, 0.2] [0.1, 0.2, 0.3, 0.9] 4 0 1 =
            Inr \<lparr>cuts = [0, 0.25, 0.5, 0.75], efficiencies = [1, 0.75, 0.75, 0.5],
                 purities = [1/2, 3/5, 3/4, 2/3], fomValues = [1/2, 9/20, 9/16, 1/3]\<rparr>)"
proof (intro conjI impI)
  assume a: "Integral_all (Histo1D nBins minScore maxScore signalScores) > 0 \<and> nBins \<ge> 1"
  let ?hS = "Histo1D nBins minScore maxScore signalScores"
  let ?hB = "Histo1D nBins minScore maxScore backgroundScores"
  let ?t = "Integral_all ?hS"
  let ?v = "sweep_loop ?hS ?hB ?t nBins 1 no_points"
  from a have t: "?t > 0" and n: "1 \<le> nBins" by simp_all
  have range: "minScore < maxScore"
    using Histo1D_empty_range [of maxScore minScore nBins signalScores] t by (cases "minScore < maxScore") simp_all
  have nS: "fNbins ?hS = nat nBins" and nB: "fNbins ?hB = nat nBins"
    using n by (simp_all add: Histo1D_fields)
  have sw: "sweep signalScores backgroundScores nBins minScore maxScore = Inr ?v"
    using t n by (intro sweep_ok) simp_all
  have len: "length (cuts ?v) = nat nBins" "length (efficiencies ?v) = nat nBins"
            "length (purities ?v) = nat nBins" "length (fomValues ?v) = nat nBins"
    using n by (simp_all add: sweep_loop_vectors no_points_def)
  have "sorted_wrt (<) [1..nBins]"
    by (simp add: strict_sorted_iff)
  then have "sorted_wrt (\<lambda>i j. GetBinLowEdge ?hS i < GetBinLowEdge ?hS j) [1..nBins]"
    by (rule sorted_wrt_mono_rel [rotated])
       (use range n nS in \<open>simp add: GetBinLowEdge_strict Histo1D_fields\<close>)
  then have sorted: "sorted_wrt (<) (cuts ?v)"
    by (simp add: sweep_loop_vectors no_points_def sorted_wrt_map)
  have pts: "let hSignal = ?hS; hBackground = ?hB;
                 tp = real (sum_list (map (\<lambda>b. fArray hSignal ! nat b) [i..nBins]));
                 fp = real (sum_list (map (\<lambda>b. fArray hBackground ! nat b) [i..nBins]));
                 m = ComputeMetrics tp fp (Integral_all hSignal)
             in Integral hSignal i nBins = tp \<and> Integral hBackground i nBins = fp \<and>
                cuts ?v ! nat (i - 1) = GetBinLowEdge hSignal i \<and>
                efficiencies ?v ! nat (i - 1) = efficiency m \<and>
                purities ?v ! nat (i - 1) = purity m \<and>
                fomValues ?v ! nat (i - 1) = fom m"
    if i: "1 \<le> i \<and> i \<le> nBins" for i
  proof -
    have iS: "Integral ?hS i nBins = real (sum_list (map (\<lambda>b. fArray ?hS ! nat b) [i..nBins]))"
      using i nS by (simp add: Integral_bins)
    have iB: "Integral ?hB i nBins = real (sum_list (map (\<lambda>b. fArray ?hB ! nat b) [i..nBins]))"
      using i nB by (simp add: Integral_bins)
    have c: "cuts ?v ! nat (i - 1) = GetBinLowEdge ?hS i"
      using i by (simp add: sweep_loop_vectors no_points_def nth_map_upto_1 del: nth_map)
    have e: "efficiencies ?v ! nat (i - 1) = Integral ?hS i nBins / ?t"
      using i by (simp add: sweep_loop_vectors no_points_def nth_map_upto_1 del: nth_map)
    have p: "purities ?v ! nat (i - 1) =
               (if Integral ?hS i nBins + Integral ?hB i nBins > 0
                then Integral ?hS i nBins / (Integral ?hS i nBins + Integral ?hB i nBins) else 0)"
      using i by (simp add: sweep_loop_vectors no_points_def nth_map_upto_1 del: nth_map)
    have f: "fomValues ?v ! nat (i - 1) = Integral ?hS i nBins / ?t *
               (if Integral ?hS i nBins + Integral ?hB i nBins > 0
                then Integral ?hS i nBins / (Integral ?hS i nBins + Integral ?hB i nBins) else 0)"
      using i by (simp add: sweep_loop_vectors no_points_def nth_map_upto_1 del: nth_map)
    show ?thesis
      unfolding Let_def c e p f iS [symmetric] iB [symmetric]
      using t by (simp add: ComputeMetrics_def Let_def)
  qed
  show "\<exists>v. sweep signalScores backgroundScores nBins minScore maxScore = Inr v \<and>
           length (cuts v) = nat nBins \<and> length (efficiencies v) = nat nBins \<and>
           length (purities v) = nat nBins \<and> length (fomValues v) = nat nBins \<and>
           sorted_wrt (<) (cuts v) \<and>
           (\<forall>i. 1 \<le> i \<and> i \<le> nBins \<longrightarrow>
              (let hSignal = Histo1D nBins minScore maxScore signalScores;
                   hBackground = Histo1D nBins minScore maxScore backgroundScores;
                   tp = real (sum_list (map (\<lambda>b. fArray hSignal ! nat b) [i..nBins]));
                   fp = real (sum_list (map (\<lambda>b. fArray hBackground ! nat b) [i..nBins]));
                   m = ComputeMetrics tp fp (Integral_all hSignal)
               in Integral hSignal i nBins = tp \<and> Integral hBackground i nBins = fp \<and>
                  cuts v ! nat (i - 1) = GetBinLowEdge hSignal i \<and>
                  efficiencies v ! nat (i - 1) = efficiency m \<and>
                  purities v ! nat (i - 1) = purity m \<and>
                  fomValues v ! nat (i - 1) = fom m))"
    using sw len sorted pts by blast
next
  show "let hSignal = Histo1D 4 0 1 [0.9, 0.8, 0.7, 0.2];
           hBackground = Histo1D 4 0 1 [0.1, 0.2, 0.3, 0.9]
       in GetBinLowEdge hSignal 4 = 0.75 \<and> Integral hSignal 4 4 = 2 \<and> Integral hBackground 4 4 = 1 \<and>
          sweep [0.9, 0.8, 0.7, 0.2] [0.1, 0.2, 0.3, 0.9] 4 0 1 =
            Inr \<lparr>cuts = [0, 0.25, 0.5, 0.75], efficiencies = [1, 0.75, 0.75, 0.5],
                 purities = [1/2, 3/5, 3/4, 2/3], fomValues = [1/2, 9/20, 9/16, 1/3]\<rparr>"
    unfolding Let_def example_sweep example_hSignal example_hBackground
    by (simp add: GetBinLowEdge_def Integral_def Let_def upto_rec1)
qed

theorem sweep_points_witness:
  "Integral_all (Histo1D 4 0 1 [0.9, 0.8, 0.7, 0.2]) > 0 \<and> (4::int) \<ge> 1 \<and>
   (\<exists>v. sweep [0.9, 0.8, 0.7, 0.2] [0.1, 0.2, 0.3, 0.9] 4 0 1 = Inr v \<and>
        length (cuts v) = 4 \<and> cuts v ! 3 = 0.75 \<and>
        efficiencies v ! 3 = efficiency (ComputeMetrics 2 1 4))"
proof -
  have h: "Integral_all (Histo1D 4 0 1 [0.9, 0.8, 0.7, 0.2]) > 0 \<and> (4::int) \<ge> 1"
    unfolding example_hSignal by (simp add: Integral_all_def Integral_def Let_def upto_rec1)
  from sweep_points [of 4 0 1 "[0.9, 0.8, 0.7, 0.2]" "[0.1, 0.2, 0.3, 0.9]"] h
  obtain v where v: "sweep [0.9, 0.8, 0.7, 0.2] [0.1, 0.2, 0.3, 0.9] 4 0 1 = Inr v"
    "length (cuts v) = nat 4" by blast
  then show ?thesis
    using h unfolding example_sweep by (auto simp add: ComputeMetrics_def Let_def)
qed

text \<open>
  C2. For all \<open>nSig, nBkg \<ge> 0\<close> and every \<open>totalSignal\<close>, \<open>ComputeMetrics\<close> returns a value (it
  is a total function: no input makes it raise), with
  efficiency \<open>nSig / totalSignal\<close> when \<open>totalSignal > 0\<close> and 0 otherwise,
  purity \<open>nSig / (nSig + nBkg)\<close> when \<open>nSig + nBkg > 0\<close> and 0 otherwise,
  fom the product of the two, effErr \<open>sqrt (efficiency * (1 - efficiency) / totalSignal)\<close>
  when \<open>totalSignal > 0\<close> and 0 otherwise, purErr
  \<open>sqrt (purity * (1 - purity) / (nSig + nBkg))\<close> when \<open>nSig + nBkg > 0\<close> and 0 otherwise, and
  fomErr \<open>sqrt ((purity * effErr)\<^sup>2 + (efficiency * purErr)\<^sup>2)\<close>; the square roots are the
  C++ ones (\<open>c_sqrt\<close>, NaN on a negative argument, which propagates into fomErr).
\<close>

theorem ComputeMetrics_formulas:
  assumes "0 \<le> nSig" and "0 \<le> nBkg"
  shows "let m = ComputeMetrics nSig nBkg totalSignal in
     efficiency m = (if totalSignal > 0 then nSig / totalSignal else 0) \<and>
     purity m = (if nSig + nBkg > 0 then nSig / (nSig + nBkg) else 0) \<and>
     fom m = efficiency m * purity m \<and>
     effErr m = (if totalSignal > 0 then c_sqrt (efficiency m * (1 - efficiency m) / totalSignal) else Some 0) \<and>
     purErr m = (if nSig + nBkg > 0 then c_sqrt (purity m * (1 - purity m) / (nSig + nBkg)) else Some 0) \<and>
     fomErr m = (case (effErr m, purErr m) of
                   (Some a, Some b) \<Rightarrow> c_sqrt ((purity m * a)\<^sup>2 + (efficiency m * b)\<^sup>2)
                 | _ \<Rightarrow> None)"
  by (simp add: ComputeMetrics_def Let_def split: option.splits)

theorem ComputeMetrics_formulas_witness:
  "(0::real) \<le> 2 \<and> (0::real) \<le> 1 \<and>
   efficiency (ComputeMetrics 2 1 4) = 1/2 \<and> purity (ComputeMetrics 2 1 4) = 2/3 \<and>
   fom (ComputeMetrics 2 1 4) = 1/3 \<and> effErr (ComputeMetrics 2 1 4) = c_sqrt (1/16) \<and>
   efficiency (ComputeMetrics 2 1 0) = 0 \<and> effErr (ComputeMetrics 2 1 0) = Some 0 \<and>
   purity (ComputeMetrics 0 0 4) = 0 \<and> purErr (ComputeMetrics 0 0 4) = Some 0"
proof -
  have a: "efficiency (ComputeMetrics 2 1 4) = 1/2" "purity (ComputeMetrics 2 1 4) = 2/3"
    using ComputeMetrics_formulas [of 2 1 4] by (simp_all add: Let_def)
  have b: "fom (ComputeMetrics 2 1 4) =
             efficiency (ComputeMetrics 2 1 4) * purity (ComputeMetrics 2 1 4)"
          "effErr (ComputeMetrics 2 1 4) =
             c_sqrt (efficiency (ComputeMetrics 2 1 4) * (1 - efficiency (ComputeMetrics 2 1 4)) / 4)"
    using ComputeMetrics_formulas [of 2 1 4] by (simp_all add: Let_def)
  have c: "efficiency (ComputeMetrics 2 1 0) = 0" "effErr (ComputeMetrics 2 1 0) = Some 0"
    using ComputeMetrics_formulas [of 2 1 0] by (simp_all add: Let_def)
  have d: "purity (ComputeMetrics 0 0 4) = 0" "purErr (ComputeMetrics 0 0 4) = Some 0"
    using ComputeMetrics_formulas [of 0 0 4] by (simp_all add: Let_def)
  show ?thesis
    unfolding b a c d by simp
qed

text \<open>
  C4. For every sweep over samples whose signal histogram has a positive integral (and a
  bin count that is not negative, without which the code throws and there is no sweep),
  the sweep returns its points, every efficiency lies in \<open>[0, 1]\<close>, and along the points
  the cuts do not decrease while the efficiencies do not increase.
\<close>

theorem sweep_efficiency_monotone:
  assumes "Integral_all (Histo1D nBins minScore maxScore signalScores) > 0" and "0 \<le> nBins"
  shows "\<exists>v. sweep signalScores backgroundScores nBins minScore maxScore = Inr v \<and>
             (\<forall>e \<in> set (efficiencies v). 0 \<le> e \<and> e \<le> 1) \<and>
             (\<forall>i j. i \<le> j \<and> j < length (efficiencies v) \<longrightarrow>
                    cuts v ! i \<le> cuts v ! j \<and> efficiencies v ! j \<le> efficiencies v ! i)"
proof -
  let ?v = "sweep_loop (Histo1D nBins minScore maxScore signalScores)
              (Histo1D nBins minScore maxScore backgroundScores)
              (Integral_all (Histo1D nBins minScore maxScore signalScores)) nBins 1 no_points"
  have len: "length (cuts ?v) = length (efficiencies ?v)"
    by (simp add: sweep_loop_vectors no_points_def)
  have "sweep signalScores backgroundScores nBins minScore maxScore = Inr ?v"
    using assms by (rule sweep_ok)
  moreover have "\<forall>e \<in> set (efficiencies ?v). 0 \<le> e \<and> e \<le> 1"
    using assms(1) by (rule sweep_loop_efficiency_bounds)
  moreover have "\<forall>i j. i \<le> j \<and> j < length (efficiencies ?v) \<longrightarrow>
                    cuts ?v ! i \<le> cuts ?v ! j \<and> efficiencies ?v ! j \<le> efficiencies ?v ! i"
    using sweep_loop_efficiency_antimono [OF assms(1)] sweep_loop_cuts_mono [OF assms(1)] len
    by metis
  ultimately show ?thesis by blast
qed

theorem sweep_efficiency_monotone_witness:
  "Integral_all (Histo1D 4 0 1 [0.9, 0.8, 0.7, 0.2]) > 0 \<and> (0::int) \<le> 4 \<and>
   sweep [0.9, 0.8, 0.7, 0.2] [0.1, 0.2, 0.3, 0.9] 4 0 1 =
     Inr \<lparr>cuts = [0, 0.25, 0.5, 0.75], efficiencies = [1, 0.75, 0.75, 0.5],
          purities = [1/2, 3/5, 3/4, 2/3], fomValues = [1/2, 9/20, 9/16, 1/3]\<rparr> \<and>
   (0.5::real) \<le> 0.75 \<and> (0.75::real) \<le> 1"
proof -
  have h: "Integral_all (Histo1D 4 0 1 [0.9, 0.8, 0.7, 0.2]) > 0"
    unfolding example_hSignal by (simp add: Integral_all_def Integral_def Let_def upto_rec1)
  have n: "(0::int) \<le> 4" by simp
  from sweep_efficiency_monotone [OF h n, of "[0.1, 0.2, 0.3, 0.9]"]
  obtain v where v: "sweep [0.9, 0.8, 0.7, 0.2] [0.1, 0.2, 0.3, 0.9] 4 0 1 = Inr v"
    and m: "\<forall>i j. i \<le> j \<and> j < length (efficiencies v) \<longrightarrow>
                    cuts v ! i \<le> cuts v ! j \<and> efficiencies v ! j \<le> efficiencies v ! i"
    and b: "\<forall>e \<in> set (efficiencies v). 0 \<le> e \<and> e \<le> 1"
    by blast
  from v have veq: "v = \<lparr>cuts = [0, 0.25, 0.5, 0.75], efficiencies = [1, 0.75, 0.75, 0.5],
          purities = [1/2, 3/5, 3/4, 2/3], fomValues = [1/2, 9/20, 9/16, 1/3]\<rparr>"
    unfolding example_sweep by simp
  from m [rule_format, of 2 3] have "efficiencies v ! 3 \<le> efficiencies v ! 2"
    by (simp add: veq)
  moreover from b have "efficiencies v ! 2 \<le> 1" by (simp add: veq)
  ultimately show ?thesis using h v by (simp add: veq)
qed

text \<open>
  C8. Every sweep that the code carries out (a positive signal integral and a bin count
  that is not negative) returns its points, and for every point the stored fom is the
  product of the stored efficiency and the stored purity of the same point; the fom field
  of \<open>ComputeMetrics\<close> is the product of its efficiency and purity fields as well.
\<close>

theorem sweep_fom_product:
  assumes "Integral_all (Histo1D nBins minScore maxScore signalScores) > 0" and "0 \<le> nBins"
  shows "(\<exists>v. sweep signalScores backgroundScores nBins minScore maxScore = Inr v \<and>
              length (efficiencies v) = length (fomValues v) \<and>
              length (purities v) = length (fomValues v) \<and>
              (\<forall>i < length (fomValues v). fomValues v ! i = efficiencies v ! i * purities v ! i))
         \<and> fom (ComputeMetrics nSig nBkg totalSignal) =
             efficiency (ComputeMetrics nSig nBkg totalSignal) *
             purity (ComputeMetrics nSig nBkg totalSignal)"
proof -
  let ?v = "sweep_loop (Histo1D nBins minScore maxScore signalScores)
              (Histo1D nBins minScore maxScore backgroundScores)
              (Integral_all (Histo1D nBins minScore maxScore signalScores)) nBins 1 no_points"
  have "sweep signalScores backgroundScores nBins minScore maxScore = Inr ?v"
    using assms by (rule sweep_ok)
  moreover have "length (efficiencies ?v) = length (fomValues ?v)"
    "length (purities ?v) = length (fomValues ?v)"
    by (simp_all add: sweep_loop_vectors no_points_def)
  moreover have "\<forall>i < length (fomValues ?v). fomValues ?v ! i = efficiencies ?v ! i * purities ?v ! i"
    by (simp add: sweep_loop_vectors no_points_def)
  moreover have "fom (ComputeMetrics nSig nBkg totalSignal) =
             efficiency (ComputeMetrics nSig nBkg totalSignal) *
             purity (ComputeMetrics nSig nBkg totalSignal)"
    by (simp add: ComputeMetrics_def Let_def)
  ultimately show ?thesis by blast
qed

theorem sweep_fom_product_witness:
  "Integral_all (Histo1D 4 0 1 [0.9, 0.8, 0.7, 0.2]) > 0 \<and> (0::int) \<le> 4 \<and>
   (\<exists>v. sweep [0.9, 0.8, 0.7, 0.2] [0.1, 0.2, 0.3, 0.9] 4 0 1 = Inr v \<and>
        fomValues v ! 3 = 1/3 \<and> efficiencies v ! 3 = 1/2 \<and> purities v ! 3 = 2/3 \<and>
        fomValues v ! 3 = efficiencies v ! 3 * purities v ! 3)"
proof -
  have h: "Integral_all (Histo1D 4 0 1 [0.9, 0.8, 0.7, 0.2]) > 0"
    unfolding example_hSignal by (simp add: Integral_all_def Integral_def Let_def upto_rec1)
  have n: "(0::int) \<le> 4" by simp
  from sweep_fom_product [OF h n, of "[0.1, 0.2, 0.3, 0.9]"]
  obtain v where v: "sweep [0.9, 0.8, 0.7, 0.2] [0.1, 0.2, 0.3, 0.9] 4 0 1 = Inr v"
    and p: "\<forall>i < length (fomValues v). fomValues v ! i = efficiencies v ! i * purities v ! i"
    by blast
  from v have veq: "v = \<lparr>cuts = [0, 0.25, 0.5, 0.75], efficiencies = [1, 0.75, 0.75, 0.5],
          purities = [1/2, 3/5, 3/4, 2/3], fomValues = [1/2, 9/20, 9/16, 1/3]\<rparr>"
    unfolding example_sweep by simp
  from p [rule_format, of 3] have "fomValues v ! 3 = efficiencies v ! 3 * purities v ! 3"
    by (simp add: veq)
  then show ?thesis using h v by (simp add: veq)
qed

text \<open>
  C5. For every input on which \<open>GetOptimalCut\<close> succeeds, with a curve fit that reproduces
  the grid points and a maximiser that returns the lowest global maximum of the fitted
  FoM curve on \<open>[minScore, maxScore]\<close> (both as the specification describes them), the
  returned cut is the maximiser's, the fitted FoM at the returned cut is at least the FoM
  of each of the \<open>nBins\<close> sampled cuts, and a sampled cut that reaches the same FoM is not
  below the returned cut (ties go to the lowest cut).
\<close>

theorem optimal_cut_dominates_grid:
  assumes sw: "sweep (map (\<lambda>e. score e mvaBranch) (Signal f))
                     (map (\<lambda>e. score e mvaBranch) (Background f)) nBins minScore maxScore = Inr v"
    and ok: "GetOptimalCut RooSpline GetMaximumX GetMaximum (Some f) mvaBranch resultsFile
               resultsOpened resultsTree nBins minScore maxScore = Inr (bestCut, logged)"
    and fit: "reproduces_points RooSpline"
    and best: "lowest_global_maximum (RooSpline (cuts v) (fomValues v)) minScore maxScore
                 (GetMaximumX (RooSpline (cuts v) (fomValues v)) minScore maxScore)"
  shows "bestCut = GetMaximumX (RooSpline (cuts v) (fomValues v)) minScore maxScore \<and>
         length (cuts v) = nat nBins \<and> length (fomValues v) = nat nBins \<and>
         (\<forall>i < nat nBins.
            fomValues v ! i \<le> RooSpline (cuts v) (fomValues v) bestCut \<and>
            (fomValues v ! i = RooSpline (cuts v) (fomValues v) bestCut \<longrightarrow> bestCut \<le> cuts v ! i))"
proof -
  let ?sig = "map (\<lambda>e. score e mvaBranch) (Signal f)"
  let ?hS = "Histo1D nBins minScore maxScore ?sig"
  let ?g = "RooSpline (cuts v) (fomValues v)"
  from sweep_Inr [OF sw] have t: "Integral_all ?hS > 0" and n: "0 \<le> nBins"
    and c: "cuts v = map (GetBinLowEdge ?hS) [1..nBins]"
    and len: "length (cuts v) = nat nBins" "length (fomValues v) = nat nBins"
    by (simp_all add: sweep_loop_vectors no_points_def)
  have bc: "bestCut = GetMaximumX ?g minScore maxScore"
    using ok sw by (rule GetOptimalCut_Inr)
  have range: "minScore < maxScore"
    using Histo1D_empty_range [of maxScore minScore nBins ?sig] t
    by (cases "minScore < maxScore") simp_all
  have pt: "fomValues v ! i \<le> ?g bestCut \<and> (fomValues v ! i = ?g bestCut \<longrightarrow> bestCut \<le> cuts v ! i)"
    if i: "i < nat nBins" for i
  proof -
    from i have n1: "1 \<le> nBins" by simp
    have nS: "fNbins ?hS = nat nBins" using n1 by (simp add: Histo1D_fields)
    have "sorted_wrt (<) [1..nBins]" by (simp add: strict_sorted_iff)
    then have "sorted_wrt (\<lambda>i j. GetBinLowEdge ?hS i < GetBinLowEdge ?hS j) [1..nBins]"
      by (rule sorted_wrt_mono_rel [rotated])
         (use range n1 nS in \<open>simp add: GetBinLowEdge_strict Histo1D_fields\<close>)
    then have "sorted_wrt (<) (cuts v)" by (simp add: c sorted_wrt_map)
    then have dist: "distinct (cuts v)" by (simp add: strict_sorted_iff)
    have node: "?g (cuts v ! i) = fomValues v ! i"
      using fit dist len i unfolding reproduces_points_def by simp
    have ci: "cuts v ! i = GetBinLowEdge ?hS (1 + int i)"
      using i by (simp add: c nth_upto)
    have "fXmin ?hS \<le> GetBinLowEdge ?hS (1 + int i) \<and> GetBinLowEdge ?hS (1 + int i) \<le> fXmax ?hS"
    proof (rule GetBinLowEdge_in_range)
      show "fXmin ?hS < fXmax ?hS" using range by (simp add: Histo1D_fields)
      show "1 \<le> 1 + int i" by simp
      show "1 + int i \<le> int (fNbins ?hS)" using i n1 unfolding nS by linarith
    qed
    then have inr: "minScore \<le> cuts v ! i \<and> cuts v ! i \<le> maxScore"
      by (simp add: ci Histo1D_fields)
    from best inr have "?g (cuts v ! i) \<le> ?g bestCut \<and> (?g (cuts v ! i) = ?g bestCut \<longrightarrow> bestCut \<le> cuts v ! i)"
      unfolding lowest_global_maximum_def bc [symmetric] by blast
    then show ?thesis by (simp add: node)
  qed
  from bc len pt show ?thesis by blast
qed

theorem optimal_cut_dominates_grid_witness:
  "sweep (map (\<lambda>e. score e ''BDT'')
            (Signal \<lparr>Signal = map (\<lambda>s. \<lparr>TrueNuE = 1, score = (\<lambda>b. s)\<rparr>) [0.9, 0.8, 0.7, 0.2],
                     Background = map (\<lambda>s. \<lparr>TrueNuE = 1, score = (\<lambda>b. s)\<rparr>) [0.1, 0.2, 0.3, 0.9]\<rparr>))
         (map (\<lambda>e. score e ''BDT'')
            (Background \<lparr>Signal = map (\<lambda>s. \<lparr>TrueNuE = 1, score = (\<lambda>b. s)\<rparr>) [0.9, 0.8, 0.7, 0.2],
                     Background = map (\<lambda>s. \<lparr>TrueNuE = 1, score = (\<lambda>b. s)\<rparr>) [0.1, 0.2, 0.3, 0.9]\<rparr>))
         4 0 1
     = Inr \<lparr>cuts = [0, 1/4, 1/2, 3/4], efficiencies = [1, 3/4, 3/4, 1/2],
            purities = [1/2, 3/5, 3/4, 2/3], fomValues = [1/2, 9/20, 9/16, 1/3]\<rparr> \<and>
   GetOptimalCut (\<lambda>xs ys x. case map_of (zip xs ys) x of None \<Rightarrow> 0 | Some y \<Rightarrow> y)
       (\<lambda>g a b. 1/2) (\<lambda>g a b x. (g (1/2), x))
       (Some \<lparr>Signal = map (\<lambda>s. \<lparr>TrueNuE = 1, score = (\<lambda>b. s)\<rparr>) [0.9, 0.8, 0.7, 0.2],
              Background = map (\<lambda>s. \<lparr>TrueNuE = 1, score = (\<lambda>b. s)\<rparr>) [0.1, 0.2, 0.3, 0.9]\<rparr>)
       ''BDT'' [] None ''Performance'' 4 0 1 = Inr (1/2, None) \<and>
   reproduces_points (\<lambda>xs ys x. case map_of (zip xs ys) x of None \<Rightarrow> 0 | Some y \<Rightarrow> y) \<and>
   lowest_global_maximum
       (\<lambda>x. case map_of (zip [0, 1/4, 1/2, 3/4] [1/2, 9/20, 9/16, 1/3]) x of None \<Rightarrow> 0 | Some y \<Rightarrow> y)
       0 1 (1/2) \<and>
   (1/3::real) \<le> (case map_of (zip [0, 1/4, 1/2, 3/4] [1/2, 9/20, 9/16, 1/3]) (1/2::real)
                     of None \<Rightarrow> 0 | Some y \<Rightarrow> y)"
proof -
  let ?f = "\<lparr>Signal = map (\<lambda>s. \<lparr>TrueNuE = 1, score = (\<lambda>b. s)\<rparr>) [0.9, 0.8, 0.7, 0.2],
             Background = map (\<lambda>s. \<lparr>TrueNuE = 1, score = (\<lambda>b. s)\<rparr>) [0.1, 0.2, 0.3, 0.9]\<rparr>"
  let ?S = "\<lambda>(xs::real list) (ys::real list) x. case map_of (zip xs ys) x of None \<Rightarrow> 0 | Some y \<Rightarrow> y"
  let ?v = "\<lparr>cuts = [0, 1/4, 1/2, 3/4], efficiencies = [1, 3/4, 3/4, 1/2],
             purities = [1/2, 3/5, 3/4, 2/3], fomValues = [1/2, 9/20, 9/16, 1/3::real]\<rparr>"
  have sw: "sweep (map (\<lambda>e. score e ''BDT'') (Signal ?f)) (map (\<lambda>e. score e ''BDT'') (Background ?f))
              4 0 1 = Inr ?v"
    using example_sweep by simp
  have ok: "GetOptimalCut ?S (\<lambda>g a b. 1/2) (\<lambda>g a b x. (g (1/2), x)) (Some ?f)
              ''BDT'' [] None ''Performance'' 4 0 1 = Inr (1/2, None)"
    unfolding GetOptimalCut_def using sw by (simp add: Let_def)
  have fit: "reproduces_points ?S"
    unfolding reproduces_points_def by (simp add: map_of_zip_nth)
  have best: "lowest_global_maximum (?S (cuts ?v) (fomValues ?v)) 0 1 ((\<lambda>g a b. 1/2) (?S (cuts ?v) (fomValues ?v)) 0 1)"
    unfolding lowest_global_maximum_def by simp
  from optimal_cut_dominates_grid [OF sw ok fit best]
  have "fomValues ?v ! 3 \<le> ?S (cuts ?v) (fomValues ?v) (1/2)" by simp
  then show ?thesis
    using sw ok fit best by simp
qed

text \<open>
  C6. When the signal histogram of an accessible input has an integral that is not
  positive, the sweep and \<open>GetOptimalCut\<close> both end with the empty-distribution error: no
  result is returned, so none with an undefined efficiency.
\<close>

theorem empty_signal_error:
  assumes "Integral_all (Histo1D nBins minScore maxScore (map (\<lambda>e. score e mvaBranch) (Signal f))) \<le> 0"
  shows "sweep (map (\<lambda>e. score e mvaBranch) (Signal f)) backgroundScores nBins minScore maxScore
           = Inl EmptyDistributionError
       \<and> GetOptimalCut RooSpline GetMaximumX GetMaximum (Some f) mvaBranch resultsFile
           resultsOpened resultsTree nBins minScore maxScore = Inl EmptyDistributionError"
  using assms by (simp add: sweep_def GetOptimalCut_def Let_def)

theorem empty_signal_error_witness:
  "Integral_all (Histo1D 4 0 1 (map (\<lambda>e. score e ''BDT'')
       (Signal \<lparr>Signal = [], Background = [\<lparr>TrueNuE = 1, score = (\<lambda>b. 0.3)\<rparr>]\<rparr>))) \<le> 0 \<and>
   GetOptimalCut (\<lambda>xs ys x. 0) (\<lambda>g a b. a) (\<lambda>g a b x. (g a, a))
     (Some \<lparr>Signal = [], Background = [\<lparr>TrueNuE = 1, score = (\<lambda>b. 0.3)\<rparr>]\<rparr>)
     ''BDT'' [] None ''Performance'' 4 0 1 = Inl EmptyDistributionError"
proof -
  have h: "Integral_all (Histo1D 4 0 1 (map (\<lambda>e. score e ''BDT'')
       (Signal \<lparr>Signal = [], Background = [\<lparr>TrueNuE = 1, score = (\<lambda>b. 0.3)\<rparr>]\<rparr>))) \<le> 0"
    by (simp add: Histo1D_def TH1D_new_def Integral_all_def Integral_def Let_def upto_rec1 eval_nat_numeral)
  show ?thesis
    using empty_signal_error [OF h] h by simp
qed

text \<open>
  C1. The claim has the update leave the matching row's columns that are not supplied at
  their prior values, and every other row unchanged. The code does not: the rewritten
  tree is booked with the key branch and the supplied branches only. A tree with the
  single entry (Method = BDT, FoM = 1, Purity = 2), updated at key BDT with FoM = 5 only,
  comes back with one entry whose FoM is 5 and which has no Purity any more.
\<close>

theorem upsert_update_drops_column:
  "cell_of (Inr [''Performance'' \<mapsto> [[''Method'' \<mapsto> Str ''BDT'', ''FoM'' \<mapsto> Num 1, ''Purity'' \<mapsto> Num 2]]])
      ''Performance'' 0 ''Purity'' = Some (Num 2) \<and>
   cell_of (UpdateOrInsertByKey
        (Some [''Performance'' \<mapsto> [[''Method'' \<mapsto> Str ''BDT'', ''FoM'' \<mapsto> Num 1, ''Purity'' \<mapsto> Num 2]]])
        ''Performance'' ''Method'' ''BDT'' [''FoM'' \<mapsto> 5])
      ''Performance'' 0 ''Purity'' = None \<and>
   cell_of (UpdateOrInsertByKey
        (Some [''Performance'' \<mapsto> [[''Method'' \<mapsto> Str ''BDT'', ''FoM'' \<mapsto> Num 1, ''Purity'' \<mapsto> Num 2]]])
        ''Performance'' ''Method'' ''BDT'' [''FoM'' \<mapsto> 5])
      ''Performance'' 0 ''FoM'' = Some (Num 5) \<and>
   entries_of (UpdateOrInsertByKey
        (Some [''Performance'' \<mapsto> [[''Method'' \<mapsto> Str ''BDT'', ''FoM'' \<mapsto> Num 1, ''Purity'' \<mapsto> Num 2]]])
        ''Performance'' ''Method'' ''BDT'' [''FoM'' \<mapsto> 5]) ''Performance'' = Some 1"
  by (simp add: UpdateOrInsertByKey_def Let_def copy_entry_def read_key_def read_value_def
      filled_row_def cell_of_def entries_of_def map_add_def)

text \<open>
  What the rewrite does for a key that matches exactly one entry: the number of entries,
  their order and their keys stay; every entry carries the key branch and exactly the
  supplied branches; the matching entry holds the supplied values, every other entry its
  stored value of each supplied branch (0 where it had none).
\<close>

lemma upsert_update_rewrite:
  assumes "f treeName = Some t"
    and "length (filter (\<lambda>e. read_key keyBranch e = keyValue) t) = 1"
  shows "\<exists>t'. UpdateOrInsertByKey (Some f) treeName keyBranch keyValue values = Inr (f(treeName \<mapsto> t')) \<and>
           length t' = length t \<and>
           (\<forall>i < length t.
              (t' ! i) keyBranch = Some (Str (read_key keyBranch (t ! i))) \<and>
              (\<forall>b. b \<noteq> keyBranch \<longrightarrow>
                 (t' ! i) b =
                   (if read_key keyBranch (t ! i) = keyValue then map_option Num (values b)
                    else (case values b of None \<Rightarrow> None
                          | Some _ \<Rightarrow> Some (Num (read_value (t ! i) b))))))"
proof -
  from assms(2) have "filter (\<lambda>e. read_key keyBranch e = keyValue) t \<noteq> []" by auto
  then have "\<exists>e \<in> set t. read_key keyBranch e = keyValue"
    by (simp add: filter_empty_conv)
  with assms(1) have "UpdateOrInsertByKey (Some f) treeName keyBranch keyValue values =
      Inr (f(treeName \<mapsto> map (\<lambda>e. fst (copy_entry keyBranch keyValue values e False)) t))"
    by (rule upsert_existing_match)
  then show ?thesis
    by (intro exI [of _ "map (\<lambda>e. fst (copy_entry keyBranch keyValue values e False)) t"])
       (simp add: copy_entry_cells)
qed

text \<open>
  C7. The claim has the insertion leave the values of the rows already stored unchanged.
  The code does not, for the same reason. A tree with the single entry
  (Method = BDT, FoM = 1, Purity = 2), given the new key MLP with FoM = 5 only, comes back
  with two entries, the second for MLP, the first of which has lost its Purity.
\<close>

theorem upsert_insert_drops_column:
  "cell_of (Inr [''Performance'' \<mapsto> [[''Method'' \<mapsto> Str ''BDT'', ''FoM'' \<mapsto> Num 1, ''Purity'' \<mapsto> Num 2]]])
      ''Performance'' 0 ''Purity'' = Some (Num 2) \<and>
   cell_of (UpdateOrInsertByKey
        (Some [''Performance'' \<mapsto> [[''Method'' \<mapsto> Str ''BDT'', ''FoM'' \<mapsto> Num 1, ''Purity'' \<mapsto> Num 2]]])
        ''Performance'' ''Method'' ''MLP'' [''FoM'' \<mapsto> 5])
      ''Performance'' 0 ''Purity'' = None \<and>
   cell_of (UpdateOrInsertByKey
        (Some [''Performance'' \<mapsto> [[''Method'' \<mapsto> Str ''BDT'', ''FoM'' \<mapsto> Num 1, ''Purity'' \<mapsto> Num 2]]])
        ''Performance'' ''Method'' ''MLP'' [''FoM'' \<mapsto> 5])
      ''Performance'' 1 ''Method'' = Some (Str ''MLP'') \<and>
   entries_of (UpdateOrInsertByKey
        (Some [''Performance'' \<mapsto> [[''Method'' \<mapsto> Str ''BDT'', ''FoM'' \<mapsto> Num 1, ''Purity'' \<mapsto> Num 2]]])
        ''Performance'' ''Method'' ''MLP'' [''FoM'' \<mapsto> 5]) ''Performance'' = Some 2"
  by (simp add: UpdateOrInsertByKey_def Let_def copy_entry_def read_key_def read_value_def
      filled_row_def cell_of_def entries_of_def map_add_def)

text \<open>
  What the call does for a key that no entry has: a missing tree is created with the one
  entry (key branch = key, supplied branches = supplied values); a stored tree gets that
  entry appended at the end, after its entries rewritten as above.
\<close>

lemma upsert_insert_append:
  "(f treeName = None \<longrightarrow>
      UpdateOrInsertByKey (Some f) treeName keyBranch keyValue values =
        Inr (f(treeName \<mapsto> [filled_row keyBranch keyValue values])))
   \<and> (\<forall>t. f treeName = Some t \<and> (\<forall>e \<in> set t. read_key keyBranch e \<noteq> keyValue) \<longrightarrow>
        (\<exists>t'. UpdateOrInsertByKey (Some f) treeName keyBranch keyValue values =
                 Inr (f(treeName \<mapsto> t' @ [filled_row keyBranch keyValue values])) \<and>
              length t' = length t \<and>
              (\<forall>i < length t.
                 (t' ! i) keyBranch = Some (Str (read_key keyBranch (t ! i))) \<and>
                 (\<forall>b. b \<noteq> keyBranch \<longrightarrow>
                    (t' ! i) b = (case values b of None \<Rightarrow> None
                                  | Some _ \<Rightarrow> Some (Num (read_value (t ! i) b)))))))
   \<and> filled_row keyBranch keyValue values keyBranch = Some (Str keyValue)
   \<and> (\<forall>b. b \<noteq> keyBranch \<longrightarrow> filled_row keyBranch keyValue values b = map_option Num (values b))"
proof (intro conjI impI allI)
  assume "f treeName = None"
  then show "UpdateOrInsertByKey (Some f) treeName keyBranch keyValue values =
        Inr (f(treeName \<mapsto> [filled_row keyBranch keyValue values]))"
    by (rule upsert_missing)
next
  fix t
  assume a: "f treeName = Some t \<and> (\<forall>e \<in> set t. read_key keyBranch e \<noteq> keyValue)"
  then have "UpdateOrInsertByKey (Some f) treeName keyBranch keyValue values =
      Inr (f(treeName \<mapsto> map (\<lambda>e. fst (copy_entry keyBranch keyValue values e False)) t
              @ [filled_row keyBranch keyValue values]))"
    by (intro upsert_existing_nomatch) simp_all
  then show "\<exists>t'. UpdateOrInsertByKey (Some f) treeName keyBranch keyValue values =
                 Inr (f(treeName \<mapsto> t' @ [filled_row keyBranch keyValue values])) \<and>
              length t' = length t \<and>
              (\<forall>i < length t.
                 (t' ! i) keyBranch = Some (Str (read_key keyBranch (t ! i))) \<and>
                 (\<forall>b. b \<noteq> keyBranch \<longrightarrow>
                    (t' ! i) b = (case values b of None \<Rightarrow> None
                                  | Some _ \<Rightarrow> Some (Num (read_value (t ! i) b)))))"
    using a
    by (intro exI [of _ "map (\<lambda>e. fst (copy_entry keyBranch keyValue values e False)) t"])
       (simp add: copy_entry_cells)
next
  show "filled_row keyBranch keyValue values keyBranch = Some (Str keyValue)"
    by (simp add: filled_row_def)
next
  fix b assume "b \<noteq> keyBranch"
  then show "filled_row keyBranch keyValue values b = map_option Num (values b)"
    by (simp add: filled_row_def)
qed

text \<open>
  C9. For every list of bin edges with fewer than two entries, whatever the other
  arguments, \<open>CreateEnergyBinnedData\<close> ends with the invalid-binning error: the check
  precedes the access to the input and the creation of the output file, and no entry is
  written.
\<close>

theorem short_edge_list_error:
  assumes "length energyBinEdges < 2"
  shows "CreateEnergyBinnedData inputFile outputCreated methodCutValues energyBinEdges
           = Inl InvalidBinningError"
  using assms by (simp add: CreateEnergyBinnedData_def)

theorem short_edge_list_error_witness:
  "length [5::real] < 2 \<and>
   CreateEnergyBinnedData (Some \<lparr>Signal = [], Background = []\<rparr>) True [''BDT'' \<mapsto> 0.5] [5]
     = Inl InvalidBinningError \<and>
   CreateEnergyBinnedData None False Map.empty [] = Inl InvalidBinningError"
proof -
  have h: "length [5::real] < 2" by simp
  have h0: "length ([]::real list) < 2" by simp
  show ?thesis
    using short_edge_list_error [OF h] short_edge_list_error [OF h0] by simp
qed

text \<open>
  C10. For every triple of scores and every signal type, \<open>addCVNMax\<close> returns 1 exactly
  when the signal type is the class of the largest score (ties going to NuMu before NuE
  before NC) and 0 otherwise; and whatever value the NC branch stores into \<^verbatim>\<open>maxScore\<close>,
  the returned value is the same, so the store of \<^verbatim>\<open>cvnNuMu\<close> is dead.
\<close>

theorem addCVNMax_argmax_dead_store:
  "addCVNMax signalType cvnNuE cvnNuMu cvnNC =
     (if signalType = spec_predicted_class cvnNuE cvnNuMu cvnNC then 1 else 0)
   \<and> (\<forall>w. addCVNMax_storing w signalType cvnNuE cvnNuMu cvnNC =
            addCVNMax signalType cvnNuE cvnNuMu cvnNC)"
proof -
  have "addCVNMax_storing w signalType cvnNuE cvnNuMu cvnNC =
        addCVNMax signalType cvnNuE cvnNuMu cvnNC" for w
    by (simp add: addCVNMax_storing_def addCVNMax_def addCVNMax_locals_def Let_def)
  moreover have "addCVNMax signalType cvnNuE cvnNuMu cvnNC =
     (if signalType = spec_predicted_class cvnNuE cvnNuMu cvnNC then 1 else 0)"
    unfolding addCVNMax_def addCVNMax_locals_class spec_predicted_class_eq by auto
  ultimately show ?thesis by blast
qed

theorem addCVNMax_argmax_dead_store_witness:
  "addCVNMax NC (1/10) (2/10) (7/10) = 1 \<and> addCVNMax NuMu (1/10) (2/10) (7/10) = 0
   \<and> addCVNMax_storing (7/10) NC (1/10) (2/10) (7/10) = 1
   \<and> spec_predicted_class (1/10) (2/10) (7/10) = NC"
proof -
  have c: "spec_predicted_class (1/10) (2/10) (7/10) = NC"
    by (simp add: spec_predicted_class_def beats_def score_of_def priority_def)
  show ?thesis
    using addCVNMax_argmax_dead_store [of NC "1/10" "2/10" "7/10"]
          addCVNMax_argmax_dead_store [of NuMu "1/10" "2/10" "7/10"] c
    by simp
qed

end
